theory Spec2Isabelle
  imports Complex_Main "HOL-Library.Sublist"
begin

section \<open>Text\<close>

text \<open>
  A Python \<open>str\<close> is a sequence of Unicode code points. A code point is a natural
  number here, so that every character a model can emit is covered, not only the
  eight-bit ones. \<open>lit\<close> turns an ASCII literal of the source into such a sequence.
\<close>

type_synonym str = "nat list"

definition lit :: "string \<Rightarrow> str" where
  "lit s = map of_char s"

text \<open>
  \<open>str.isspace\<close> for one code point: the characters CPython classifies as whitespace
  (bidirectional class WS, B or S, or general category Zs).
\<close>

definition isspace :: "nat \<Rightarrow> bool" where
  "isspace c \<longleftrightarrow>
     (9 \<le> c \<and> c \<le> 13) \<or> (28 \<le> c \<and> c \<le> 32) \<or> c = 133 \<or> c = 160 \<or> c = 5760 \<or>
     (8192 \<le> c \<and> c \<le> 8202) \<or> c = 8232 \<or> c = 8233 \<or> c = 8239 \<or> c = 8287 \<or> c = 12288"

text \<open>\<open>str.strip()\<close> with no argument: whitespace is dropped at both ends.\<close>

definition strip :: "str \<Rightarrow> str" where
  "strip s = rev (dropWhile isspace (rev (dropWhile isspace s)))"

text \<open>
  \<open>str.split()\<close> with no argument: the maximal runs of non-whitespace characters, in
  order. The second argument of \<open>split_aux\<close> is the word being read.
\<close>

fun split_aux :: "str \<Rightarrow> str \<Rightarrow> str list" where
  "split_aux [] w = (if w = [] then [] else [w])"
| "split_aux (c # cs) w =
     (if isspace c then (if w = [] then split_aux cs [] else w # split_aux cs [])
      else split_aux cs (w @ [c]))"

definition split :: "str \<Rightarrow> str list" where
  "split s = split_aux s []"

text \<open>\<open>str.startswith\<close>.\<close>

definition startswith :: "str \<Rightarrow> str \<Rightarrow> bool" where
  "startswith s p = prefix p s"

text \<open>
  \<open>str.find\<close>: the index of the first occurrence of a pattern, \<open>None\<close> where Python
  returns \<open>-1\<close>.
\<close>

fun find_sub :: "str \<Rightarrow> str \<Rightarrow> nat option" where
  "find_sub pat [] = (if pat = [] then Some 0 else None)"
| "find_sub pat (c # cs) =
     (if prefix pat (c # cs) then Some 0 else map_option Suc (find_sub pat cs))"

section \<open>The response sanitizer\<close>

definition open_tag :: str where
  "open_tag = lit ''<think>''"

definition close_tag :: str where
  "close_tag = lit ''</think>''"

text \<open>
  One attempt of the regular expression \<^verbatim>\<open><think>.*?</think>\<close> (flag DOTALL) at the
  start of \<open>s\<close>: the opening marker must stand there; the lazy \<^verbatim>\<open>.*?\<close> matches any
  characters, newlines too, and as few as possible, so the match ends with the first
  closing marker after the opening one. The result is the length of the match.
\<close>

definition match_think :: "str \<Rightarrow> nat option" where
  "match_think s =
     (if prefix open_tag s
      then map_option (\<lambda>j. length open_tag + j + length close_tag)
             (find_sub close_tag (drop (length open_tag) s))
      else None)"

text \<open>
  \<open>re.sub(pattern, "", text)\<close>: one scan from left to right. Where the pattern matches,
  the match is dropped and the scan goes on behind it; elsewhere the character is kept.
  What is kept is never scanned again.
\<close>

function re_sub :: "str \<Rightarrow> str" where
  "re_sub [] = []"
| "re_sub (c # cs) =
     (case match_think (c # cs) of
        Some n \<Rightarrow> re_sub (drop n (c # cs))
      | None \<Rightarrow> c # re_sub cs)"
  by pat_completeness auto
termination
  by (relation "measure length") (auto simp: match_think_def open_tag_def lit_def split: if_splits)

definition clean_response :: "str \<Rightarrow> str" where
  "clean_response text = strip (re_sub text)"

text \<open>
  A reasoning-delimited segment, as the specification defines it: an opening marker
  followed later by a closing marker.
\<close>

definition has_segment :: "str \<Rightarrow> bool" where
  "has_segment s =
     (case find_sub open_tag s of
        None \<Rightarrow> False
      | Some i \<Rightarrow> find_sub close_tag (drop (i + length open_tag) s) \<noteq> None)"

section \<open>Formatting numbers\<close>

text \<open>The decimal digits of a natural number, as \<open>str(n)\<close> prints them.\<close>

fun digits :: "nat \<Rightarrow> str" where
  "digits n = (if n < 10 then [48 + n] else digits (n div 10) @ [48 + n mod 10])"

declare digits.simps [simp del]

definition str_int :: "int \<Rightarrow> str" where
  "str_int i = (if i < 0 then lit ''-'' @ digits (nat (- i)) else digits (nat i))"

text \<open>
  Durations are real numbers here: the exact values of the floats the program holds.
  \<open>format_f n x\<close> is the format specification \<^verbatim>\<open>.nf\<close>: \<open>n\<close> decimal places, the
  value rounded to the nearest one, a tie going to the even digit.
\<close>

definition round_half_even :: "real \<Rightarrow> int" where
  "round_half_even y =
     (let f = \<lfloor>y\<rfloor>; r = y - of_int f
      in if r < 1 / 2 then f else if 1 / 2 < r then f + 1 else if even f then f else f + 1)"

definition format_f :: "nat \<Rightarrow> real \<Rightarrow> str" where
  "format_f n x =
     (let q = nat (round_half_even (\<bar>x\<bar> * 10 ^ n));
          ds = digits (q mod 10 ^ n)
      in (if x < 0 then lit ''-'' else []) @ digits (q div 10 ^ n) @
         (if n = 0 then [] else lit ''.'' @ replicate (n - length ds) 48 @ ds))"

section \<open>Floating-point arithmetic\<close>

text \<open>
  A Python float is an IEEE 754 double: 53 significant bits, and the result of an
  operation is the exact result rounded to the nearest float, a tie going to the even
  one. \<open>float_round\<close> is that rounding. \<open>round_bits\<close> rounds to a multiple of \<^verbatim>\<open>2^-52\<close>,
  which is the nearest float of a value from 1 up to 2; \<open>round_large\<close> halves a larger
  value down to that range and \<open>round_small\<close> doubles a smaller one up to it, at most
  1022 times, since the floats below \<^verbatim>\<open>2^-1022\<close> are the multiples of \<^verbatim>\<open>2^-1074\<close>. A result
  beyond the largest float (about \<open>1.8e308\<close>), where Python gives \<open>inf\<close>, is outside the
  model: no quotient or difference of two durations read from a wall clock comes near it.
\<close>

definition round_bits :: "real \<Rightarrow> real" where
  "round_bits y = of_int (round_half_even (y * 2 ^ 52)) / 2 ^ 52"

primrec round_large :: "nat \<Rightarrow> real \<Rightarrow> real" where
  "round_large 0 x = round_bits x"
| "round_large (Suc n) x = (if x < 2 then round_bits x else 2 * round_large n (x / 2))"

primrec round_small :: "nat \<Rightarrow> real \<Rightarrow> real" where
  "round_small 0 x = round_bits x"
| "round_small (Suc n) x = (if 1 \<le> x then round_bits x else round_small n (2 * x) / 2)"

definition float_round :: "real \<Rightarrow> real" where
  "float_round x =
     (let a = \<bar>x\<bar>;
          r = (if a = 0 then 0 else if 1 \<le> a then round_large 1023 a else round_small 1022 a)
      in if x < 0 then - r else r)"

text \<open>
  The operators \<^verbatim>\<open>/\<close> and \<^verbatim>\<open>-\<close> on two floats. Where the program divides, the divisor is
  greater than zero (both divisions stand under such a test). In \<open>call_groq\<close> the
  difference of the two clock readings of one call is taken exactly: the readings lie
  within a factor of two of each other, and the difference of two such floats is a
  float.
\<close>

definition float_div :: "real \<Rightarrow> real \<Rightarrow> real" where
  "float_div a b = float_round (a / b)"

definition float_sub :: "real \<Rightarrow> real \<Rightarrow> real" where
  "float_sub a b = float_round (a - b)"

section \<open>JSON values and exceptions\<close>

text \<open>
  What \<open>resp.json()\<close> returns: a Python value built from dicts (their items, keys
  distinct), lists, strings, numbers, booleans and \<open>None\<close>.
\<close>

datatype json =
    JNull
  | JBool bool
  | JInt int
  | JFloat real
  | JString str
  | JArray "json list"
  | JObject "(str \<times> json) list"

text \<open>
  An exception is its class and its message; \<open>str_exn\<close> is what \<^verbatim>\<open>f"{e}"\<close> prints.
  The wording of the interpreter's own messages follows CPython 3.11.
\<close>

datatype exn = Exn string str

fun str_exn :: "exn \<Rightarrow> str" where
  "str_exn (Exn cls msg) = msg"

fun type_name :: "json \<Rightarrow> string" where
  "type_name JNull = ''NoneType''"
| "type_name (JBool b) = ''bool''"
| "type_name (JInt i) = ''int''"
| "type_name (JFloat x) = ''float''"
| "type_name (JString s) = ''str''"
| "type_name (JArray xs) = ''list''"
| "type_name (JObject kvs) = ''dict''"

definition not_subscriptable :: "json \<Rightarrow> exn" where
  "not_subscriptable v =
     Exn ''TypeError'' ([39] @ lit (type_name v) @ [39] @ lit '' object is not subscriptable'')"

text \<open>\<open>v[k]\<close> for a string key \<open>k\<close>.\<close>

fun subscript_key :: "json \<Rightarrow> str \<Rightarrow> exn + json" where
  "subscript_key (JObject kvs) k =
     (case map_of kvs k of
        Some v \<Rightarrow> Inr v
      | None \<Rightarrow> Inl (Exn ''KeyError'' ([39] @ k @ [39])))"
| "subscript_key (JArray xs) k =
     Inl (Exn ''TypeError'' (lit ''list indices must be integers or slices, not str''))"
| "subscript_key (JString s) k =
     Inl (Exn ''TypeError'' (lit ''string indices must be integers, not '' @ [39] @ lit ''str'' @ [39]))"
| "subscript_key v k = Inl (not_subscriptable v)"

text \<open>\<open>v[0]\<close>. The keys of a parsed JSON object are strings, so \<open>0\<close> is never one.\<close>

fun subscript_zero :: "json \<Rightarrow> exn + json" where
  "subscript_zero (JArray xs) =
     (case xs of
        [] \<Rightarrow> Inl (Exn ''IndexError'' (lit ''list index out of range''))
      | x # _ \<Rightarrow> Inr x)"
| "subscript_zero (JString s) =
     (case s of
        [] \<Rightarrow> Inl (Exn ''IndexError'' (lit ''string index out of range''))
      | c # _ \<Rightarrow> Inr (JString [c]))"
| "subscript_zero (JObject kvs) = Inl (Exn ''KeyError'' (lit ''0''))"
| "subscript_zero v = Inl (not_subscriptable v)"

definition bind_exn :: "exn + 'a \<Rightarrow> ('a \<Rightarrow> exn + 'b) \<Rightarrow> exn + 'b" where
  "bind_exn r f = (case r of Inl e \<Rightarrow> Inl e | Inr v \<Rightarrow> f v)"

text \<open>\<^verbatim>\<open>data["choices"][0]["message"]["content"]\<close>\<close>

definition first_content :: "json \<Rightarrow> exn + json" where
  "first_content data =
     bind_exn (bind_exn (bind_exn (subscript_key data (lit ''choices'')) subscript_zero)
       (\<lambda>choice. subscript_key choice (lit ''message'')))
       (\<lambda>msg. subscript_key msg (lit ''content''))"

text \<open>
  \<open>clean_response\<close> applied to whatever the body held as content: \<open>re.sub\<close> raises
  \<open>TypeError\<close> on a value that is not a string.
\<close>

fun clean_response_value :: "json \<Rightarrow> exn + str" where
  "clean_response_value (JString s) = Inr (clean_response s)"
| "clean_response_value v =
     Inl (Exn ''TypeError''
       (lit ''expected string or bytes-like object, got '' @ [39] @ lit (type_name v) @ [39]))"

section \<open>The model invoker\<close>

definition GROQ_API_URL :: str where
  "GROQ_API_URL = lit ''https://api.groq.com/openai/v1/chat/completions''"

definition AVAILABLE_MODELS :: "str list" where
  "AVAILABLE_MODELS =
     [lit ''llama-3.1-8b-instant'', lit ''gemma2-9b-it'', lit ''qwen/qwen3-32b'',
      lit ''openai/gpt-oss-20b'', lit ''openai/gpt-oss-120b'']"

record request =
  url :: str
  headers :: "(str \<times> str) list"
  body :: json

record response =
  status_code :: int
  resp_text :: str
  resp_json :: "exn + json"

datatype outcome = Raises exn | Responds response

text \<open>
  What the program does not decide: the key, the wall clock (\<open>clock env k\<close> is the
  \<open>k\<close>-th reading of \<open>time.time()\<close>), the endpoint (\<open>post env k req\<close> is what
  \<open>requests.post\<close> does with the \<open>k\<close>-th request: it raises or returns a response) and
  how Python prints a float with \<open>str\<close>.
\<close>

record env =
  api_key :: str
  clock :: "nat \<Rightarrow> real"
  post :: "nat \<Rightarrow> request \<Rightarrow> outcome"
  float_str :: "real \<Rightarrow> str"

text \<open>What the program changes: the clock readings taken and the requests sent.\<close>

record world =
  ticks :: nat
  sent :: "request list"

definition time_time :: "env \<Rightarrow> world \<Rightarrow> real \<times> world" where
  "time_time e w = (clock e (ticks w), w\<lparr>ticks := Suc (ticks w)\<rparr>)"

definition requests_post :: "env \<Rightarrow> request \<Rightarrow> world \<Rightarrow> outcome \<times> world" where
  "requests_post e req w = (post e (length (sent w)) req, w\<lparr>sent := sent w @ [req]\<rparr>)"

definition system_prompt :: str where
  "system_prompt =
     lit ''You are a helpful assistant. '' @
     lit ''Do not include hidden reasoning steps, thought processes, '' @
     lit ''or <think> tags in your response. '' @
     lit ''Only return the final answer clearly and concisely.''"

definition payload :: "str \<Rightarrow> str \<Rightarrow> real \<Rightarrow> int \<Rightarrow> json" where
  "payload prompt model temperature' max_tokens' =
     JObject
       [(lit ''model'', JString model),
        (lit ''messages'',
           JArray
             [JObject [(lit ''role'', JString (lit ''system'')),
                       (lit ''content'', JString system_prompt)],
              JObject [(lit ''role'', JString (lit ''user'')),
                       (lit ''content'', JString prompt)]]),
        (lit ''temperature'', JFloat temperature'),
        (lit ''max_tokens'', JInt max_tokens')]"

definition groq_request :: "env \<Rightarrow> str \<Rightarrow> str \<Rightarrow> real \<Rightarrow> int \<Rightarrow> request" where
  "groq_request e prompt model temperature' max_tokens' =
     \<lparr>url = GROQ_API_URL,
      headers = [(lit ''Authorization'', lit ''Bearer '' @ api_key e),
                 (lit ''Content-Type'', lit ''application/json'')],
      body = payload prompt model temperature' max_tokens'\<rparr>"

text \<open>
  \<open>call_groq\<close>: the result text and the time taken, with the world after the call.
  Every exception raised inside the \<open>try\<close> block is a branch that returns the error
  text with the time \<open>0.0\<close>. When \<open>requests.post\<close> raises, the clock is not read again.
\<close>

definition call_groq ::
  "env \<Rightarrow> str \<Rightarrow> str \<Rightarrow> real \<Rightarrow> int \<Rightarrow> world \<Rightarrow> (str \<times> real) \<times> world" where
  "call_groq e prompt model temperature' max_tokens' w =
     (let (start_time, w1) = time_time e w;
          (oc, w2) = requests_post e (groq_request e prompt model temperature' max_tokens') w1
      in case oc of
           Raises ex \<Rightarrow> ((lit ''Error: '' @ str_exn ex, 0), w2)
         | Responds resp \<Rightarrow>
             (let (end_time, w3) = time_time e w2;
                  time_taken = end_time - start_time
              in if status_code resp \<noteq> 200
                 then ((lit ''Error: '' @ str_int (status_code resp) @ lit '' - '' @ resp_text resp,
                        0), w3)
                 else (case bind_exn (bind_exn (resp_json resp) first_content)
                              clean_response_value of
                         Inl ex \<Rightarrow> ((lit ''Error: '' @ str_exn ex, 0), w3)
                       | Inr response_text \<Rightarrow> ((response_text, time_taken), w3))))"

section \<open>The presentation layer\<close>

datatype length_option = Short | Medium | Long

fun length_map :: "length_option \<Rightarrow> int" where
  "length_map Short = 150"
| "length_map Medium = 400"
| "length_map Long = 800"

text \<open>The values of the widgets when the button is pressed.\<close>

record controls =
  model_1 :: str
  model_2 :: str
  temperature :: real
  length_option :: length_option
  custom_max_tokens :: int
  top_p :: real
  frequency_penalty :: real
  user_prompt :: str

definition max_tokens :: "controls \<Rightarrow> int" where
  "max_tokens c =
     (let mt = length_map (length_option c)
      in if custom_max_tokens c \<noteq> mt then custom_max_tokens c else mt)"

text \<open>What the page shows, in order; \<open>Columns\<close> holds the two result columns.\<close>

datatype widget =
    Warning str
  | Spinner str
  | Subheader str
  | Info str
  | Write str
  | Caption str
  | Markdown str
  | Success str
  | Columns "widget list" "widget list"

text \<open>One result column (the two \<open>with col\<close> blocks are the same code).\<close>

definition column :: "env \<Rightarrow> str \<Rightarrow> real \<Rightarrow> int \<Rightarrow> str \<Rightarrow> real \<Rightarrow> widget list" where
  "column e model temperature' max_tokens' output time =
     [Subheader model,
      Info (lit ''Temperature: '' @ float_str e temperature' @ lit '' | Max Tokens: '' @
            str_int max_tokens'),
      Write output] @
     (if output \<noteq> [] \<and> \<not> startswith output (lit ''Error'')
      then (let word_count = length (split output)
            in [Caption (lit ''Response time: '' @ format_f 2 time @ lit '' seconds''),
                Caption (lit ''Word count: '' @ str_int (int word_count) @ lit '' words'')] @
               (if time > 0
                then [Caption (lit ''Speed: '' @ format_f 1 (float_div (real word_count) time) @
                               lit '' words/second'')]
                else []))
      else [])"

definition faster_model :: "real \<Rightarrow> real \<Rightarrow> str \<Rightarrow> str \<Rightarrow> str" where
  "faster_model time_1 time_2 m1 m2 = (if time_1 < time_2 then m1 else m2)"

definition speed_diff :: "real \<Rightarrow> real \<Rightarrow> real" where
  "speed_diff time_1 time_2 = \<bar>float_sub time_1 time_2\<bar>"

definition speed_ratio :: "real \<Rightarrow> real \<Rightarrow> real" where
  "speed_ratio time_1 time_2 = float_div (max time_1 time_2) (min time_1 time_2)"

definition comparison_summary :: "real \<Rightarrow> real \<Rightarrow> str \<Rightarrow> str \<Rightarrow> widget list" where
  "comparison_summary time_1 time_2 m1 m2 =
     (if time_1 > 0 \<and> time_2 > 0
      then [Markdown (lit ''---''),
            Success (faster_model time_1 time_2 m1 m2 @ lit '' was '' @
                     format_f 1 (speed_ratio time_1 time_2) @ lit ''x faster ('' @
                     format_f 2 (speed_diff time_1 time_2) @ lit ''s difference)'')]
      else [])"

text \<open>The handler of the button "Run Prompt": the page it renders and the world after.\<close>

definition run_prompt :: "env \<Rightarrow> controls \<Rightarrow> world \<Rightarrow> widget list \<times> world" where
  "run_prompt e c w =
     (if strip (user_prompt c) = []
      then ([Warning (lit ''Please enter a prompt first.'')], w)
      else (let ((output_1, time_1), w1) =
                  call_groq e (user_prompt c) (model_1 c) (temperature c) (max_tokens c) w;
                ((output_2, time_2), w2) =
                  call_groq e (user_prompt c) (model_2 c) (temperature c) (max_tokens c) w1
            in ([Spinner (lit ''Running prompt on '' @ model_1 c @ lit '' and '' @ model_2 c @
                          lit ''...''),
                 Columns (column e (model_1 c) (temperature c) (max_tokens c) output_1 time_1)
                         (column e (model_2 c) (temperature c) (max_tokens c) output_2 time_2)] @
                comparison_summary time_1 time_2 (model_1 c) (model_2 c), w2)))"

section \<open>Decimal numerals\<close>

text \<open>
  What "formatted to \<open>n\<close> decimal places" says of a printed number: digits, at least
  one, then a point, then exactly \<open>n\<close> digits.
\<close>

definition is_digit :: "nat \<Rightarrow> bool" where
  "is_digit c \<longleftrightarrow> 48 \<le> c \<and> c \<le> 57"

definition fixed_point :: "nat \<Rightarrow> str \<Rightarrow> bool" where
  "fixed_point n s =
     (let ip = takeWhile is_digit s
      in ip \<noteq> [] \<and>
         (case dropWhile is_digit s of
            [] \<Rightarrow> False
          | c # fp \<Rightarrow> c = 46 \<and> length fp = n \<and> list_all is_digit fp))"

section \<open>A mocked endpoint\<close>

text \<open>
  The scenarios of the specification run against an endpoint that answers every request
  alike, a clock with given readings, and the widgets at their defaults. A well-formed
  body has the shape \<^verbatim>\<open>{choices: [{message: {content}}]}\<close>.
\<close>

definition well_formed_body :: "str \<Rightarrow> json" where
  "well_formed_body content =
     JObject [(lit ''choices'',
       JArray [JObject [(lit ''message'', JObject [(lit ''content'', JString content)])]])]"

definition ok_response :: "str \<Rightarrow> outcome" where
  "ok_response content =
     Responds \<lparr>status_code = 200, resp_text = [], resp_json = Inr (well_formed_body content)\<rparr>"

definition error_response :: "int \<Rightarrow> str \<Rightarrow> outcome" where
  "error_response code txt =
     Responds \<lparr>status_code = code, resp_text = txt,
               resp_json = Inl (Exn ''JSONDecodeError'' (lit ''Expecting value''))\<rparr>"

definition mock_env :: "(nat \<Rightarrow> real) \<Rightarrow> (nat \<Rightarrow> outcome) \<Rightarrow> env" where
  "mock_env ck oc =
     \<lparr>api_key = lit ''secret'', clock = ck, post = (\<lambda>k req. oc k), float_str = (\<lambda>x. lit ''0.7'')\<rparr>"

definition start_world :: world where
  "start_world = \<lparr>ticks = 0, sent = []\<rparr>"

definition default_controls :: "str \<Rightarrow> controls" where
  "default_controls prompt =
     \<lparr>model_1 = AVAILABLE_MODELS ! 0, model_2 = AVAILABLE_MODELS ! 1, temperature = 7 / 10,
      length_option = Medium, custom_max_tokens = 400, top_p = 9 / 10, frequency_penalty = 0,
      user_prompt = prompt\<rparr>"

definition scenario_clock :: "nat \<Rightarrow> real" where
  "scenario_clock k = (if k = 0 then 0 else if k = 1 then 1 / 2 else if k = 2 then 1 else 2)"

text \<open>A second clock: the two calls take 0.3125 and 0.359375 seconds.\<close>

definition close_clock :: "nat \<Rightarrow> real" where
  "close_clock k =
     (if k = 0 then 0 else if k = 1 then 5 / 16 else if k = 2 then 1 else 87 / 64)"

section \<open>Properties of the sanitizer\<close>

subsection \<open>Searching\<close>

lemma find_sub_Some:
  "find_sub pat s = Some i \<Longrightarrow> i \<le> length s \<and> prefix pat (drop i s) \<and> (\<forall>p<i. \<not> prefix pat (drop p s))"
proof (induction s arbitrary: i)
  case Nil
  then show ?case by (simp split: if_splits)
next
  case (Cons c cs)
  show ?case
  proof (cases "prefix pat (c # cs)")
    case True
    with Cons.prems show ?thesis by simp
  next
    case False
    with Cons.prems obtain k where k: "find_sub pat cs = Some k" "i = Suc k" by auto
    from Cons.IH[OF k(1)] have ih: "k \<le> length cs" "prefix pat (drop k cs)" "\<forall>p<k. \<not> prefix pat (drop p cs)" by auto
    have "\<forall>p<Suc k. \<not> prefix pat (drop p (c # cs))"
    proof (intro allI impI)
      fix p assume "p < Suc k"
      then show "\<not> prefix pat (drop p (c # cs))"
        using False ih(3) by (cases p) auto
    qed
    with ih k show ?thesis by simp
  qed
qed

lemma find_sub_occ:
  "prefix pat (drop q s) \<Longrightarrow> q \<le> length s \<Longrightarrow> \<exists>i\<le>q. find_sub pat s = Some i"
proof (induction s arbitrary: q)
  case Nil
  then show ?case by simp
next
  case (Cons c cs)
  show ?case
  proof (cases "prefix pat (c # cs)")
    case True
    then show ?thesis by simp
  next
    case False
    with Cons.prems obtain q' where q': "q = Suc q'" by (cases q) auto
    with Cons.prems have "prefix pat (drop q' cs)" "q' \<le> length cs" by auto
    from Cons.IH[OF this] obtain i where "i \<le> q'" "find_sub pat cs = Some i" by auto
    with False q' show ?thesis by simp
  qed
qed


lemma match_think_Some:
  "match_think s = Some n \<longleftrightarrow>
     prefix open_tag s \<and> (\<exists>j. find_sub close_tag (drop (length open_tag) s) = Some j \<and>
        n = length open_tag + j + length close_tag)"
  by (auto simp: match_think_def)

lemma re_sub_no_match:
  "(\<And>p. match_think (drop p s) = None) \<Longrightarrow> re_sub s = s"
proof (induction s)
  case Nil
  then show ?case by simp
next
  case (Cons c cs)
  have h0: "match_think (c # cs) = None" using Cons.prems[of 0] by simp
  have "\<And>p. match_think (drop p cs) = None" using Cons.prems[of "Suc p" for p] by simp
  then have "re_sub cs = cs" by (rule Cons.IH)
  with h0 show ?case by simp
qed

lemma no_segment_no_match:
  assumes "\<not> has_segment s"
  shows "match_think (drop p s) = None"
proof (rule ccontr)
  assume "match_think (drop p s) \<noteq> None"
  then obtain n where "match_think (drop p s) = Some n" by auto
  then obtain j where pre: "prefix open_tag (drop p s)"
    and cl: "find_sub close_tag (drop (length open_tag) (drop p s)) = Some j"
    by (auto simp: match_think_Some)
  have ne: "open_tag \<noteq> []" by (simp add: open_tag_def lit_def)
  have ple: "p \<le> length s"
  proof (rule ccontr)
    assume "\<not> p \<le> length s"
    then have "drop p s = []" by simp
    with pre ne show False by simp
  qed
  from find_sub_occ[OF pre ple] obtain i where i: "i \<le> p" "find_sub open_tag s = Some i" by auto
  from find_sub_Some[OF cl] have pc: "prefix close_tag (drop j (drop (length open_tag) (drop p s)))"
    and jl: "j \<le> length (drop (length open_tag) (drop p s))" by auto
  let ?q = "p + j - i"
  have eq: "drop ?q (drop (i + length open_tag) s) = drop j (drop (length open_tag) (drop p s))"
    using i(1) by (simp add: add.commute add.left_commute)
  have "length open_tag \<le> length (drop p s)" using pre by (rule prefix_length_le)
  then have ql: "?q \<le> length (drop (i + length open_tag) s)"
    using jl i(1) ple by simp
  from pc eq have "prefix close_tag (drop ?q (drop (i + length open_tag) s))" by simp
  from find_sub_occ[OF this ql] obtain k where "find_sub close_tag (drop (i + length open_tag) s) = Some k"
    by auto
  with i(2) assms show False by (simp add: has_segment_def)
qed

lemma re_sub_first_segment:
  "find_sub open_tag s = Some i \<Longrightarrow>
   find_sub close_tag (drop (i + length open_tag) s) = Some j \<Longrightarrow>
   re_sub s = take i s @ re_sub (drop (i + length open_tag + j + length close_tag) s)"
proof (induction s arbitrary: i)
  case Nil
  then show ?case by (simp add: open_tag_def lit_def)
next
  case (Cons c cs)
  show ?case
  proof (cases "prefix open_tag (c # cs)")
    case True
    with Cons.prems have i0: "i = 0" by simp
    with Cons.prems True have "match_think (c # cs) = Some (length open_tag + j + length close_tag)"
      by (simp add: match_think_def)
    with i0 show ?thesis by simp
  next
    case False
    with Cons.prems obtain k where k: "find_sub open_tag cs = Some k" "i = Suc k" by auto
    from False have m: "match_think (c # cs) = None" by (simp add: match_think_def)
    from Cons.prems(2) k have "find_sub close_tag (drop (k + length open_tag) cs) = Some j" by simp
    from Cons.IH[OF k(1) this] m k show ?thesis by simp
  qed
qed

lemma has_segment_iff:
  "has_segment s \<longleftrightarrow> (\<exists>a b c. s = a @ open_tag @ b @ close_tag @ c)"
proof
  assume "has_segment s"
  then obtain i j where i: "find_sub open_tag s = Some i"
    and j: "find_sub close_tag (drop (i + length open_tag) s) = Some j"
    by (auto simp: has_segment_def split: option.splits)
  from find_sub_Some[OF i] obtain r where r: "drop i s = open_tag @ r"
    by (auto simp: prefix_def)
  then have r': "drop (i + length open_tag) s = r"
    by (metis add.commute append_eq_conv_conj drop_drop)
  from find_sub_Some[OF j] r' obtain t where t: "drop j r = close_tag @ t"
    by (auto simp: prefix_def)
  have "s = take i s @ drop i s" by simp
  also have "\<dots> = take i s @ open_tag @ take j r @ drop j r" using r by simp
  finally have "s = take i s @ open_tag @ take j r @ close_tag @ t" using t by simp
  then show "\<exists>a b c. s = a @ open_tag @ b @ close_tag @ c" by blast
next
  assume "\<exists>a b c. s = a @ open_tag @ b @ close_tag @ c"
  then obtain a b c where s: "s = a @ open_tag @ b @ close_tag @ c" by blast
  have "prefix open_tag (drop (length a) s)" using s by simp
  from find_sub_occ[OF this] s obtain i where i: "i \<le> length a" "find_sub open_tag s = Some i" by auto
  let ?q = "length a + length b - i"
  have "drop (i + length open_tag) s = drop (i + length open_tag) (a @ open_tag) @ b @ close_tag @ c"
    using s i(1) by simp
  moreover have "length (drop (i + length open_tag) (a @ open_tag)) = length a - i" by simp
  ultimately have "drop ?q (drop (i + length open_tag) s) = close_tag @ c"
    using i(1) by (simp add: drop_append)
  then have p: "prefix close_tag (drop ?q (drop (i + length open_tag) s))" by simp
  have "?q \<le> length (drop (i + length open_tag) s)" using s i(1) by simp
  from find_sub_occ[OF p this] obtain k where "find_sub close_tag (drop (i + length open_tag) s) = Some k" by auto
  with i(2) show "has_segment s" by (simp add: has_segment_def)
qed


lemma prefix_append_tail:
  assumes "x \<noteq> []" "b \<noteq> []" "hd b \<notin> set (tl pat)"
  shows "prefix pat (x @ b) \<longleftrightarrow> prefix pat x"
proof
  assume p: "prefix pat (x @ b)"
  show "prefix pat x"
  proof (cases "length pat \<le> length x")
    case True
    from p have "pat = take (length pat) (x @ b)" by (metis append_eq_conv_conj prefix_def)
    with True have "pat = take (length pat) x" by simp
    then show ?thesis by (metis take_is_prefix)
  next
    case False
    then have lt: "length x < length pat" by simp
    from p obtain r where r: "x @ b = pat @ r" by (auto simp: prefix_def)
    have "pat ! length x = (pat @ r) ! length x" using lt by (simp add: nth_append)
    also have "\<dots> = (x @ b) ! length x" using r by simp
    also have "\<dots> = hd b" using assms(2) by (simp add: nth_append hd_conv_nth)
    finally have e: "pat ! length x = hd b" .
    from assms(1) have "0 < length x" by simp
    with lt have k: "length x - 1 < length (tl pat)" by (simp add: less_diff_conv)
    then have "tl pat ! (length x - 1) = pat ! Suc (length x - 1)" by (rule nth_tl)
    with \<open>0 < length x\<close> have "tl pat ! (length x - 1) = pat ! length x" by simp
    with k have "pat ! length x \<in> set (tl pat)" by (metis nth_mem)
    with e assms(3) show ?thesis by simp
  qed
next
  assume "prefix pat x"
  then show "prefix pat (x @ b)" by (rule prefix_prefix)
qed

lemma find_close_open: "find_sub close_tag (open_tag @ c) = map_option (\<lambda>j. length open_tag + j) (find_sub close_tag c)"
  by (simp add: open_tag_def close_tag_def lit_def option.map_comp comp_def)

lemma find_close_append:
  assumes "find_sub close_tag c = None"
  shows "find_sub close_tag (x @ open_tag @ c) = find_sub close_tag x"
proof (induction x)
  case Nil
  then show ?case using assms by (simp add: find_close_open) (simp add: close_tag_def lit_def)
next
  case (Cons ch xs)
  have "prefix close_tag ((ch # xs) @ (open_tag @ c)) \<longleftrightarrow> prefix close_tag (ch # xs)"
    by (rule prefix_append_tail) (simp_all add: open_tag_def close_tag_def lit_def)
  with Cons show ?case by simp
qed

lemma drop_append_le: "n \<le> length xs \<Longrightarrow> drop n (xs @ ys) = drop n xs @ ys"
  by simp

lemma match_think_le:
  assumes "match_think s = Some n"
  shows "n \<le> length s"
proof -
  from assms obtain j where pre: "prefix open_tag s"
    and j: "find_sub close_tag (drop (length open_tag) s) = Some j"
    and n: "n = length open_tag + j + length close_tag"
    by (auto simp: match_think_Some)
  from find_sub_Some[OF j] have "prefix close_tag (drop j (drop (length open_tag) s))" by simp
  then have "length close_tag \<le> length (drop j (drop (length open_tag) s))" by (rule prefix_length_le)
  moreover have "0 < length close_tag" by (simp add: close_tag_def lit_def)
  ultimately show ?thesis using n by (simp del: length_greater_0_conv)
qed

lemma match_think_append:
  assumes "find_sub close_tag c = None"
  shows "match_think ((ch # cs) @ open_tag @ c) = match_think (ch # cs)"
proof -
  have p: "prefix open_tag ((ch # cs) @ (open_tag @ c)) \<longleftrightarrow> prefix open_tag (ch # cs)"
    by (rule prefix_append_tail) (simp_all add: open_tag_def lit_def)
  show ?thesis
  proof (cases "prefix open_tag (ch # cs)")
    case True
    then have "length open_tag \<le> length (ch # cs)" by (rule prefix_length_le)
    then have "drop (length open_tag) ((ch # cs) @ open_tag @ c) = drop (length open_tag) (ch # cs) @ open_tag @ c"
      by (rule drop_append_le)
    with True p find_close_append[OF assms] show ?thesis by (simp add: match_think_def)
  next
    case False
    with p show ?thesis by (simp add: match_think_def)
  qed
qed

lemma re_sub_unterminated:
  assumes "find_sub close_tag c = None"
  shows "re_sub (a @ open_tag @ c) = re_sub a @ open_tag @ c"
proof (induction a rule: re_sub.induct)
  case 1
  have "\<not> has_segment (open_tag @ c)"
  proof -
    have "find_sub open_tag (open_tag @ c) = Some 0" by (simp add: open_tag_def lit_def)
    with assms show ?thesis by (simp add: has_segment_def)
  qed
  then have "re_sub (open_tag @ c) = open_tag @ c"
    by (intro re_sub_no_match no_segment_no_match)
  then show ?case by simp
next
  case (2 ch cs)
  have m: "match_think ((ch # cs) @ open_tag @ c) = match_think (ch # cs)"
    by (rule match_think_append[OF assms])
  show ?case
  proof (cases "match_think (ch # cs)")
    case None
    with m "2.IH"(1)[OF None] show ?thesis by simp
  next
    case (Some n)
    then have "n \<le> length (ch # cs)" by (rule match_think_le)
    then have "drop n ((ch # cs) @ open_tag @ c) = drop n (ch # cs) @ open_tag @ c"
      by (rule drop_append_le)
    with m Some "2.IH"(2)[OF Some] show ?thesis by simp
  qed
qed

lemma re_sub_no_segment: "\<not> has_segment s \<Longrightarrow> re_sub s = s"
  by (intro re_sub_no_match no_segment_no_match)

lemma first_segment_split:
  assumes "has_segment s"
  shows "\<exists>a b c. s = a @ open_tag @ b @ close_tag @ c \<and>
           find_sub open_tag s = Some (length a) \<and>
           find_sub close_tag (b @ close_tag @ c) = Some (length b) \<and>
           re_sub s = a @ re_sub c"
proof -
  from assms obtain i j where i: "find_sub open_tag s = Some i"
    and j: "find_sub close_tag (drop (i + length open_tag) s) = Some j"
    by (auto simp: has_segment_def split: option.splits)
  define r where "r = drop (i + length open_tag) s"
  from find_sub_Some[OF i] have il: "i \<le> length s" and "prefix open_tag (drop i s)" by auto
  then obtain r' where "drop i s = open_tag @ r'" by (auto simp: prefix_def)
  then have di: "drop i s = open_tag @ r"
    by (metis r_def add.commute append_eq_conv_conj drop_drop)
  from find_sub_Some[OF j] have jl: "j \<le> length r" and "prefix close_tag (drop j r)"
    by (auto simp: r_def)
  then obtain t where t: "drop j r = close_tag @ t" by (auto simp: prefix_def)
  have r: "r = take j r @ close_tag @ t" using t by (metis append_take_drop_id)
  have s: "s = take i s @ open_tag @ take j r @ close_tag @ t"
    using di r by (metis append_take_drop_id)
  have la: "length (take i s) = i" using il by simp
  have lb: "length (take j r) = j" using jl by simp
  have "drop (i + length open_tag + j + length close_tag) s = drop (j + length close_tag) r"
    by (simp add: r_def add.commute add.left_commute)
  also have "\<dots> = drop (length close_tag) (drop j r)" by (simp add: add.commute)
  also have "\<dots> = t" using t by simp
  finally have dt: "drop (i + length open_tag + j + length close_tag) s = t" .
  have "re_sub s = take i s @ re_sub t"
    using re_sub_first_segment[OF i j] dt by simp
  moreover have "find_sub close_tag (take j r @ close_tag @ t) = Some (length (take j r))"
    using j r lb by (simp add: r_def[symmetric])
  ultimately show ?thesis
    using s i la by (intro exI[of _ "take i s"] exI[of _ "take j r"] exI[of _ t]) simp
qed

text \<open>The definitions a concrete input is evaluated with.\<close>

lemmas text_eval = clean_response_def lit_def match_think_def open_tag_def close_tag_def
  strip_def isspace_def has_segment_def

subsection \<open>Segments\<close>

text \<open>
  Claim C2, as amended. \<open>clean_response\<close> is a function of its argument alone. For a
  text with no reasoning-delimited segment (\<open>has_segment_iff\<close>: no opening marker is
  followed later by a closing marker) the output is the input with the whitespace at
  both ends removed. For a text with a segment, the text splits at its first opening
  marker and at the first closing marker after that one: both markers and everything
  between them, newlines too, are dropped, the text before is kept, and the scan goes
  on in the text behind. The pieces that are kept are not scanned again.
\<close>

theorem clean_response_segments:
  "(\<not> has_segment text \<longrightarrow> clean_response text = strip text) \<and>
   (has_segment text \<longrightarrow>
      (\<exists>a b c. text = a @ open_tag @ b @ close_tag @ c \<and>
         find_sub open_tag text = Some (length a) \<and>
         find_sub close_tag (b @ close_tag @ c) = Some (length b) \<and>
         clean_response text = strip (a @ re_sub c)))"
proof (intro conjI impI)
  assume "\<not> has_segment text"
  then show "clean_response text = strip text"
    by (simp add: clean_response_def re_sub_no_segment)
next
  assume "has_segment text"
  from first_segment_split[OF this] obtain a b c where
    "text = a @ open_tag @ b @ close_tag @ c" "find_sub open_tag text = Some (length a)"
    "find_sub close_tag (b @ close_tag @ c) = Some (length b)" "re_sub text = a @ re_sub c"
    by blast
  moreover from this have "clean_response text = strip (a @ re_sub c)"
    by (simp only: clean_response_def)
  ultimately show "\<exists>a b c. text = a @ open_tag @ b @ close_tag @ c \<and>
         find_sub open_tag text = Some (length a) \<and>
         find_sub close_tag (b @ close_tag @ c) = Some (length b) \<and>
         clean_response text = strip (a @ re_sub c)"
    by blast
qed

theorem clean_response_segments_witness:
  "\<not> has_segment (lit '' Hello <think> there '') \<and>
   clean_response (lit '' Hello <think> there '') = lit ''Hello <think> there'' \<and>
   has_segment (lit ''x <think>a'' @ [10] @ lit ''b</think> y <think>c</think> z'') \<and>
   (\<exists>a b c. lit ''x <think>a'' @ [10] @ lit ''b</think> y <think>c</think> z'' = a @ open_tag @ b @ close_tag @ c \<and>
      clean_response (lit ''x <think>a'' @ [10] @ lit ''b</think> y <think>c</think> z'') = strip (a @ re_sub c))"
proof -
  have n: "\<not> has_segment (lit '' Hello <think> there '')" by (simp add: text_eval)
  have h: "has_segment (lit ''x <think>a'' @ [10] @ lit ''b</think> y <think>c</think> z'')" by (simp add: text_eval)
  have s: "strip (lit '' Hello <think> there '') = lit ''Hello <think> there''" by (simp add: text_eval)
  from clean_response_segments[of "lit '' Hello <think> there ''"] n s
  have 1: "clean_response (lit '' Hello <think> there '') = lit ''Hello <think> there''" by simp
  from clean_response_segments[of "lit ''x <think>a'' @ [10] @ lit ''b</think> y <think>c</think> z''"] h
  have 2: "(\<exists>a b c. lit ''x <think>a'' @ [10] @ lit ''b</think> y <think>c</think> z'' = a @ open_tag @ b @ close_tag @ c \<and>
      clean_response (lit ''x <think>a'' @ [10] @ lit ''b</think> y <think>c</think> z'') = strip (a @ re_sub c))"
    by blast
  from n 1 h 2 show ?thesis by blast
qed

text \<open>
  Claim C2 as stated fails: the input below contains the segment \<^verbatim>\<open><think></think>\<close>,
  the scan removes it, and the two pieces left over join to the very same segment,
  which is the output.
\<close>

theorem clean_response_segments_counterexample:
  "lit ''<thi<think></think>nk></think>'' = lit ''<thi'' @ open_tag @ [] @ close_tag @ lit ''nk></think>'' \<and>
   clean_response (lit ''<thi<think></think>nk></think>'') = open_tag @ [] @ close_tag \<and>
   has_segment (clean_response (lit ''<thi<think></think>nk></think>''))"
  by (simp add: text_eval)

text \<open>
  Claim C9, as amended. When no closing marker follows an opening marker, that marker
  and all the text after it stay in place: the output is the scanned text before the
  marker, the marker and the text after it, with the whitespace at both ends removed.
  When the text before the marker has no segment either, the output is the whole input
  with the whitespace at both ends removed.
\<close>

theorem clean_response_unterminated:
  "find_sub close_tag c = None \<Longrightarrow>
     clean_response (a @ open_tag @ c) = strip (re_sub a @ open_tag @ c) \<and>
     (\<not> has_segment a \<longrightarrow> clean_response (a @ open_tag @ c) = strip (a @ open_tag @ c))"
  by (simp add: clean_response_def re_sub_unterminated re_sub_no_segment)

theorem clean_response_unterminated_witness:
  "find_sub close_tag (lit '' so far '') = None \<and> \<not> has_segment (lit '' Hi '') \<and>
   clean_response (lit '' Hi '' @ open_tag @ lit '' so far '') = lit ''Hi <think> so far''"
proof -
  have c: "find_sub close_tag (lit '' so far '') = None" by (simp add: text_eval)
  have n: "\<not> has_segment (lit '' Hi '')" by (simp add: text_eval)
  have s: "strip (lit '' Hi '' @ open_tag @ lit '' so far '') = lit ''Hi <think> so far''" by (simp add: text_eval)
  from clean_response_unterminated[OF c, of "lit '' Hi ''"] n
  have "clean_response (lit '' Hi '' @ open_tag @ lit '' so far '') =
        strip (lit '' Hi '' @ open_tag @ lit '' so far '')" by blast
  with s c n show ?thesis by simp
qed

text \<open>
  Claim C9 as stated fails: the last opening marker of the input below has no closing
  marker after it, yet the output is not the trimmed input, since a terminated segment
  stands before it and is removed.
\<close>

theorem clean_response_unterminated_counterexample:
  "lit ''<think>a</think>b<think>c'' = lit ''<think>a</think>b'' @ open_tag @ lit ''c'' \<and>
   find_sub close_tag (lit ''c'') = None \<and>
   clean_response (lit ''<think>a</think>b<think>c'') = lit ''b<think>c'' \<and>
   clean_response (lit ''<think>a</think>b<think>c'') \<noteq> strip (lit ''<think>a</think>b<think>c'')"
  by (simp add: text_eval)

section \<open>Properties of the rounding\<close>

lemma round_large_numeral:
  "round_large (numeral k) x =
     (if x < 2 then round_bits x else 2 * round_large (pred_numeral k) (x / 2))"
  by (simp add: numeral_eq_Suc)

lemma round_small_numeral:
  "round_small (numeral k) x =
     (if 1 \<le> x then round_bits x else round_small (pred_numeral k) (2 * x) / 2)"
  by (simp add: numeral_eq_Suc)

lemma rhe_bounds: "of_int (round_half_even y) - y \<le> 1 / 2" "y - of_int (round_half_even y) \<le> 1 / 2"
  "\<lfloor>y\<rfloor> \<le> round_half_even y"
  unfolding round_half_even_def Let_def by (auto; linarith)+

lemma rhe_err: "\<bar>of_int (round_half_even y) - y\<bar> \<le> 1 / 2"
  using rhe_bounds(1,2)[of y] by linarith

lemma round_bits_err: "\<bar>round_bits x - x\<bar> \<le> 1 / 2 ^ 53"
proof -
  have "\<bar>round_bits x - x\<bar> = \<bar>of_int (round_half_even (x * 2 ^ 52)) - x * 2 ^ 52\<bar> / 2 ^ 52"
    by (simp add: round_bits_def field_simps abs_divide)
  also have "\<dots> \<le> (1 / 2) / 2 ^ 52"
    by (intro divide_right_mono rhe_err) simp
  also have "\<dots> = 1 / 2 ^ 53" by simp
  finally show ?thesis .
qed

lemma round_bits_ge_1: "1 \<le> x \<Longrightarrow> 1 \<le> round_bits x"
proof -
  assume "1 \<le> x"
  then have "(2::real) ^ 52 \<le> x * 2 ^ 52" by simp
  then have "(2::int) ^ 52 \<le> \<lfloor>x * 2 ^ 52\<rfloor>" by (simp add: le_floor_iff)
  with rhe_bounds(3)[of "x * 2 ^ 52"] have "(2::int) ^ 52 \<le> round_half_even (x * 2 ^ 52)" by linarith
  then have "(2::real) ^ 52 \<le> of_int (round_half_even (x * 2 ^ 52))"
    by (metis of_int_le_iff of_int_numeral of_int_power)
  then show ?thesis by (simp add: round_bits_def)
qed

lemma round_large_ge_1: "1 \<le> x \<Longrightarrow> 1 \<le> round_large n x"
proof (induction n arbitrary: x)
  case 0
  then show ?case by (simp add: round_bits_ge_1)
next
  case (Suc n)
  show ?case
  proof (cases "x < 2")
    case True
    with Suc.prems show ?thesis by (simp add: round_bits_ge_1)
  next
    case False
    then have "1 \<le> x / 2" by simp
    from Suc.IH[OF this] False show ?thesis by simp
  qed
qed

lemma round_large_err_u:
  assumes rb: "\<And>y. \<bar>round_bits y - y\<bar> \<le> u"
  shows "1 \<le> x \<Longrightarrow> \<bar>round_large n x - x\<bar> \<le> x * u"
proof (induction n arbitrary: x)
  case 0
  have "0 \<le> u" using rb[of 0] by linarith
  then have "1 * u \<le> x * u" using 0 by (intro mult_right_mono)
  with rb[of x] show ?case by simp
next
  case (Suc n)
  show ?case
  proof (cases "x < 2")
    case True
    have "0 \<le> u" using rb[of 0] by linarith
    then have "1 * u \<le> x * u" using Suc.prems by (intro mult_right_mono)
    with rb[of x] True show ?thesis by simp
  next
    case False
    then have "1 \<le> x / 2" by simp
    from Suc.IH[OF this] have "\<bar>round_large n (x / 2) - x / 2\<bar> \<le> x / 2 * u" .
    moreover have "x / 2 * u = (x * u) / 2" by simp
    ultimately have "\<bar>2 * round_large n (x / 2) - x\<bar> \<le> x * u" by linarith
    with False show ?thesis by simp
  qed
qed

lemma round_small_err_u:
  assumes rb: "\<And>y. \<bar>round_bits y - y\<bar> \<le> u"
  shows "0 \<le> x \<Longrightarrow> \<bar>round_small n x - x\<bar> \<le> max (x * u) (u / 2 ^ n)"
proof (induction n arbitrary: x)
  case 0
  from rb[of x] have "\<bar>round_bits x - x\<bar> \<le> max (x * u) u" by (rule max.coboundedI2)
  then show ?case by simp
next
  case (Suc n)
  show ?case
  proof (cases "1 \<le> x")
    case True
    have "0 \<le> u" using rb[of 0] by linarith
    then have "1 * u \<le> x * u" using True by (intro mult_right_mono)
    with rb[of x] have "\<bar>round_bits x - x\<bar> \<le> x * u" by simp
    then have "\<bar>round_bits x - x\<bar> \<le> max (x * u) (u / 2 ^ Suc n)" by (rule max.coboundedI1)
    with True show ?thesis by simp
  next
    case False
    from Suc.prems have "0 \<le> 2 * x" by simp
    from Suc.IH[OF this]
    have ih: "\<bar>round_small n (2 * x) - 2 * x\<bar> \<le> max (2 * x * u) (u / 2 ^ n)" .
    have m: "max (2 * x * u) (u / 2 ^ n) = 2 * max (x * u) (u / 2 ^ Suc n)"
      by (simp add: max_def)
    from ih have "\<bar>round_small n (2 * x) / 2 - x\<bar> \<le> max (x * u) (u / 2 ^ Suc n)"
      unfolding m by linarith
    with False show ?thesis by simp
  qed
qed

lemma round_large_err: "1 \<le> x \<Longrightarrow> \<bar>round_large n x - x\<bar> \<le> x / 2 ^ 53"
  using round_large_err_u[of "1 / 2 ^ 53" x n, OF round_bits_err] by simp

lemma round_small_err:
  "0 \<le> x \<Longrightarrow> \<bar>round_small 1022 x - x\<bar> \<le> max (x / 2 ^ 53) (1 / 2 ^ 1075)"
proof -
  assume "0 \<le> x"
  then have "\<bar>round_small 1022 x - x\<bar> \<le> max (x * (1 / 2 ^ 53)) (1 / 2 ^ 53 / 2 ^ 1022)"
    by (rule round_small_err_u[OF round_bits_err])
  moreover have "(1::real) / 2 ^ 53 / 2 ^ 1022 = 1 / 2 ^ 1075" by simp
  moreover have "x * (1 / 2 ^ 53) = x / 2 ^ 53" by simp
  ultimately show ?thesis by (simp only:)
qed

lemma float_round_ge_1: "1 \<le> x \<Longrightarrow> 1 \<le> float_round x"
  by (simp add: float_round_def Let_def round_large_ge_1)

lemma float_round_err_large: "1 \<le> x \<Longrightarrow> \<bar>float_round x - x\<bar> \<le> x / 2 ^ 53"
proof -
  assume x: "1 \<le> x"
  then have "float_round x = round_large 1023 x" by (simp add: float_round_def Let_def)
  with round_large_err[OF x, of 1023] show ?thesis by (simp only:)
qed

lemma float_round_minus: "float_round (- x) = - float_round x"
  by (simp add: float_round_def Let_def)

lemma float_round_err: "\<bar>float_round x - x\<bar> \<le> max (\<bar>x\<bar> / 2 ^ 53) (1 / 2 ^ 1075)"
proof -
  have pos: "\<bar>float_round a - a\<bar> \<le> max (a / 2 ^ 53) (1 / 2 ^ 1075)" if "0 \<le> a" for a :: real
  proof (cases "1 \<le> a")
    case True
    then have "\<bar>float_round a - a\<bar> \<le> a / 2 ^ 53" by (rule float_round_err_large)
    then show ?thesis by (rule max.coboundedI1)
  next
    case False
    show ?thesis
    proof (cases "a = 0")
      case True
      then show ?thesis by (simp add: float_round_def)
    next
      case nz: False
      from False nz that have "float_round a = round_small 1022 a"
        by (simp add: float_round_def Let_def)
      with round_small_err[OF that] show ?thesis by (simp only:)
    qed
  qed
  show ?thesis
  proof (cases "0 \<le> x")
    case True
    then have "\<bar>x\<bar> = x" by simp
    with pos[OF True] show ?thesis by (simp only:)
  next
    case False
    then have n: "0 \<le> - x" and a: "\<bar>x\<bar> = - x" by simp_all
    have "\<bar>float_round x - x\<bar> = \<bar>float_round (- x) - (- x)\<bar>"
      unfolding float_round_minus by linarith
    with pos[OF n] a show ?thesis by (simp only:)
  qed
qed

section \<open>Properties of the invoker\<close>

lemma startswith_Error: "startswith (lit ''Error: '' @ x) (lit ''Error'')"
  by (simp add: startswith_def lit_def)

lemma call_groq_cases:
  "call_groq e prompt model t n w =
     (case post e (length (sent w)) (groq_request e prompt model t n) of
        Raises ex \<Rightarrow> ((lit ''Error: '' @ str_exn ex, 0),
                       w\<lparr>ticks := Suc (ticks w), sent := sent w @ [groq_request e prompt model t n]\<rparr>)
      | Responds resp \<Rightarrow>
          (if status_code resp \<noteq> 200
           then (lit ''Error: '' @ str_int (status_code resp) @ lit '' - '' @ resp_text resp, 0)
           else (case bind_exn (bind_exn (resp_json resp) first_content) clean_response_value of
                   Inl ex \<Rightarrow> (lit ''Error: '' @ str_exn ex, 0)
                 | Inr response_text \<Rightarrow>
                     (response_text, clock e (Suc (ticks w)) - clock e (ticks w))),
           w\<lparr>ticks := Suc (Suc (ticks w)), sent := sent w @ [groq_request e prompt model t n]\<rparr>))"
  by (simp add: call_groq_def time_time_def requests_post_def Let_def
      split: outcome.splits sum.splits)

lemma call_groq_sent:
  "sent (snd (call_groq e p m t n w)) = sent w @ [groq_request e p m t n]"
  by (simp add: call_groq_cases split: outcome.splits)

lemma first_content_well_formed: "first_content (well_formed_body s) = Inr (JString s)"
  by (simp add: first_content_def well_formed_body_def bind_exn_def lit_def)

text \<open>The definitions a scenario is evaluated with.\<close>

lemmas fixture_eval = mock_env_def ok_response_def error_response_def start_world_def
  default_controls_def scenario_clock_def close_clock_def well_formed_body_def
  AVAILABLE_MODELS_def

lemmas number_eval = format_f_def round_half_even_def digits.simps str_int_def Let_def
  speed_ratio_def speed_diff_def float_div_def float_sub_def float_round_def round_bits_def
  round_large_numeral round_small_numeral

text \<open>
  Claim C1. Whenever \<open>requests.post\<close> raises, or the response has a status code other
  than 200 (every non-success code is one), or reading the body raises (\<open>resp.json()\<close>,
  a subscript or the sanitizer), the result text of \<open>call_groq\<close> is \<^verbatim>\<open>Error: \<close> followed
  by the exception's message, or by the status code, \<^verbatim>\<open> - \<close> and the raw body; it
  begins with \<^verbatim>\<open>Error\<close>, and the time returned is exactly \<open>0\<close>.
\<close>

theorem call_groq_failure:
  assumes "oc = post e (length (sent w)) (groq_request e prompt model t n)"
    and "r = fst (call_groq e prompt model t n w)"
  shows "(oc = Raises ex \<longrightarrow> r = (lit ''Error: '' @ str_exn ex, 0)) \<and>
    (oc = Responds resp \<and> status_code resp \<noteq> 200 \<longrightarrow>
       r = (lit ''Error: '' @ str_int (status_code resp) @ lit '' - '' @ resp_text resp, 0)) \<and>
    (oc = Responds resp \<and> status_code resp = 200 \<and>
       bind_exn (bind_exn (resp_json resp) first_content) clean_response_value = Inl ex \<longrightarrow>
       r = (lit ''Error: '' @ str_exn ex, 0)) \<and>
    ((\<exists>ex. oc = Raises ex) \<or>
     (\<exists>resp. oc = Responds resp \<and>
        (status_code resp \<noteq> 200 \<or>
         (\<exists>ex. bind_exn (bind_exn (resp_json resp) first_content) clean_response_value = Inl ex))) \<longrightarrow>
       startswith (fst r) (lit ''Error'') \<and> snd r = 0)"
  using assms by (auto simp: call_groq_cases startswith_Error)

theorem call_groq_failure_witness:
  "fst (call_groq (mock_env scenario_clock (\<lambda>k. error_response 500 (lit ''boom'')))
         (lit ''Say hi'') (lit ''gemma2-9b-it'') (7 / 10) 400 start_world) =
     (lit ''Error: 500 - boom'', 0) \<and>
   fst (call_groq (mock_env scenario_clock (\<lambda>k. Raises (Exn ''ConnectionError'' (lit ''refused''))))
         (lit ''Say hi'') (lit ''gemma2-9b-it'') (7 / 10) 400 start_world) =
     (lit ''Error: refused'', 0) \<and>
   fst (call_groq (mock_env scenario_clock (\<lambda>k. error_response 200 (lit ''<html>'')))
         (lit ''Say hi'') (lit ''gemma2-9b-it'') (7 / 10) 400 start_world) =
     (lit ''Error: Expecting value'', 0)"
proof -
  have d: "str_int 500 = lit ''500''" by (simp add: str_int_def digits.simps lit_def)
  have 1: "fst (call_groq (mock_env scenario_clock (\<lambda>k. error_response 500 (lit ''boom'')))
         (lit ''Say hi'') (lit ''gemma2-9b-it'') (7 / 10) 400 start_world) =
     (lit ''Error: 500 - boom'', 0)"
    using call_groq_failure[OF refl refl, where resp = "\<lparr>status_code = 500, resp_text = lit ''boom'',
               resp_json = Inl (Exn ''JSONDecodeError'' (lit ''Expecting value''))\<rparr>"
        and e = "mock_env scenario_clock (\<lambda>k. error_response 500 (lit ''boom''))" and w = start_world
        and prompt = "lit ''Say hi''" and model = "lit ''gemma2-9b-it''" and t = "7 / 10" and n = 400] d
    by (simp add: fixture_eval lit_def)
  have 2: "fst (call_groq (mock_env scenario_clock (\<lambda>k. Raises (Exn ''ConnectionError'' (lit ''refused''))))
         (lit ''Say hi'') (lit ''gemma2-9b-it'') (7 / 10) 400 start_world) =
     (lit ''Error: refused'', 0)"
    using call_groq_failure[OF refl refl, where ex = "Exn ''ConnectionError'' (lit ''refused'')"
        and e = "mock_env scenario_clock (\<lambda>k. Raises (Exn ''ConnectionError'' (lit ''refused'')))"
        and w = start_world
        and prompt = "lit ''Say hi''" and model = "lit ''gemma2-9b-it''" and t = "7 / 10" and n = 400]
    by (simp add: fixture_eval lit_def)
  have 3: "fst (call_groq (mock_env scenario_clock (\<lambda>k. error_response 200 (lit ''<html>'')))
         (lit ''Say hi'') (lit ''gemma2-9b-it'') (7 / 10) 400 start_world) =
     (lit ''Error: Expecting value'', 0)"
    using call_groq_failure[OF refl refl, where ex = "Exn ''JSONDecodeError'' (lit ''Expecting value'')"
        and resp = "\<lparr>status_code = 200, resp_text = lit ''<html>'',
               resp_json = Inl (Exn ''JSONDecodeError'' (lit ''Expecting value''))\<rparr>"
        and e = "mock_env scenario_clock (\<lambda>k. error_response 200 (lit ''<html>''))" and w = start_world
        and prompt = "lit ''Say hi''" and model = "lit ''gemma2-9b-it''" and t = "7 / 10" and n = 400]
    by (simp add: fixture_eval lit_def bind_exn_def)
  from 1 2 3 show ?thesis by blast
qed

text \<open>
  Claim C3, as amended. When the endpoint returns status 200 with a well-formed body,
  the result text is \<open>clean_response\<close> of the first completion's message content, and
  the time returned is the clock reading after the request minus the reading before
  it, which is greater than zero exactly when the clock has advanced between the two.
\<close>

theorem call_groq_success:
  assumes "post e (length (sent w)) (groq_request e prompt model t n) = Responds resp"
    and "status_code resp = 200"
    and "resp_json resp = Inr data"
    and "first_content data = Inr (JString content)"
  shows "fst (call_groq e prompt model t n w) =
           (clean_response content, clock e (Suc (ticks w)) - clock e (ticks w)) \<and>
         (0 < snd (fst (call_groq e prompt model t n w)) \<longleftrightarrow>
            clock e (ticks w) < clock e (Suc (ticks w)))"
  using assms by (simp add: call_groq_cases bind_exn_def)

theorem call_groq_success_witness:
  "fst (call_groq (mock_env scenario_clock (\<lambda>k. ok_response (lit ''<think>hm</think> Hello there'')))
         (lit ''Say hi'') (lit ''gemma2-9b-it'') (7 / 10) 400 start_world) =
     (lit ''Hello there'', 1 / 2)"
proof -
  have c: "clean_response (lit ''<think>hm</think> Hello there'') = lit ''Hello there''"
    by (simp add: text_eval)
  show ?thesis
    using call_groq_success[where e = "mock_env scenario_clock (\<lambda>k. ok_response (lit ''<think>hm</think> Hello there''))"
        and w = start_world and prompt = "lit ''Say hi''" and model = "lit ''gemma2-9b-it''"
        and t = "7 / 10" and n = 400
        and resp = "\<lparr>status_code = 200, resp_text = [],
                      resp_json = Inr (well_formed_body (lit ''<think>hm</think> Hello there''))\<rparr>"
        and data = "well_formed_body (lit ''<think>hm</think> Hello there'')"
        and content = "lit ''<think>hm</think> Hello there''"]
      first_content_well_formed c
    by (simp add: mock_env_def ok_response_def start_world_def scenario_clock_def)
qed

text \<open>
  Claim C3 as stated fails: with a mocked endpoint that answers at once, the two
  readings of \<open>time.time()\<close> can be the same, and the time returned is \<open>0\<close>.
\<close>

theorem call_groq_success_counterexample:
  "post (mock_env (\<lambda>k. 1000) (\<lambda>k. ok_response (lit ''Hello there''))) (length (sent start_world))
      (groq_request (mock_env (\<lambda>k. 1000) (\<lambda>k. ok_response (lit ''Hello there'')))
         (lit ''Say hi'') (lit ''gemma2-9b-it'') (7 / 10) 400) =
     Responds \<lparr>status_code = 200, resp_text = [],
               resp_json = Inr (well_formed_body (lit ''Hello there''))\<rparr> \<and>
   first_content (well_formed_body (lit ''Hello there'')) = Inr (JString (lit ''Hello there'')) \<and>
   fst (call_groq (mock_env (\<lambda>k. 1000) (\<lambda>k. ok_response (lit ''Hello there'')))
         (lit ''Say hi'') (lit ''gemma2-9b-it'') (7 / 10) 400 start_world) =
     (lit ''Hello there'', 0) \<and>
   \<not> 0 < snd (fst (call_groq (mock_env (\<lambda>k. 1000) (\<lambda>k. ok_response (lit ''Hello there'')))
         (lit ''Say hi'') (lit ''gemma2-9b-it'') (7 / 10) 400 start_world))"
proof -
  have c: "clean_response (lit ''Hello there'') = lit ''Hello there''"
    by (simp add: text_eval)
  show ?thesis
    using c by (simp add: call_groq_cases first_content_well_formed bind_exn_def
        mock_env_def ok_response_def start_world_def)
qed

section \<open>Properties of the presentation layer\<close>

lemma strip_empty_iff: "strip s = [] \<longleftrightarrow> list_all isspace s"
proof
  assume e: "strip s = []"
  show "list_all isspace s"
  proof (rule ccontr)
    assume "\<not> list_all isspace s"
    then have ne: "dropWhile isspace s \<noteq> []" by (simp add: list_all_iff)
    then have "\<not> isspace (hd (dropWhile isspace s))" by (rule hd_dropWhile)
    moreover have "hd (dropWhile isspace s) \<in> set (rev (dropWhile isspace s))"
      using ne by simp
    ultimately have "\<not> list_all isspace (rev (dropWhile isspace s))"
      by (auto simp: list_all_iff)
    then have "dropWhile isspace (rev (dropWhile isspace s)) \<noteq> []"
      by (simp add: list_all_iff)
    with e show False by (simp add: strip_def)
  qed
next
  assume "list_all isspace s"
  then have "dropWhile isspace s = []" by (simp add: list_all_iff)
  then show "strip s = []" by (simp add: strip_def del: dropWhile_eq_Nil_conv)
qed

lemma run_prompt_nonblank:
  assumes "strip (user_prompt c) \<noteq> []"
  shows "run_prompt e c w =
     (let r1 = call_groq e (user_prompt c) (model_1 c) (temperature c) (max_tokens c) w;
          r2 = call_groq e (user_prompt c) (model_2 c) (temperature c) (max_tokens c) (snd r1)
      in ([Spinner (lit ''Running prompt on '' @ model_1 c @ lit '' and '' @ model_2 c @
                    lit ''...''),
           Columns (column e (model_1 c) (temperature c) (max_tokens c) (fst (fst r1)) (snd (fst r1)))
                   (column e (model_2 c) (temperature c) (max_tokens c) (fst (fst r2)) (snd (fst r2)))] @
          comparison_summary (snd (fst r1)) (snd (fst r2)) (model_1 c) (model_2 c), snd r2))"
  using assms by (simp add: run_prompt_def Let_def split: prod.splits)

lemma speed_ratio_ge_1:
  assumes "0 < t1" "0 < t2"
  shows "1 \<le> speed_ratio t1 t2"
    and "\<bar>speed_ratio t1 t2 - max t1 t2 / min t1 t2\<bar> \<le> max t1 t2 / min t1 t2 / 2 ^ 53"
proof -
  have "0 < min t1 t2" using assms by simp
  moreover have "min t1 t2 \<le> max t1 t2" by simp
  ultimately have q: "1 \<le> max t1 t2 / min t1 t2" by (simp add: le_divide_eq_1_pos)
  from q show "1 \<le> speed_ratio t1 t2"
    unfolding speed_ratio_def float_div_def by (rule float_round_ge_1)
  from q show "\<bar>speed_ratio t1 t2 - max t1 t2 / min t1 t2\<bar> \<le> max t1 t2 / min t1 t2 / 2 ^ 53"
    unfolding speed_ratio_def float_div_def by (rule float_round_err_large)
qed

text \<open>
  Two quotients that the rounding decides: 3 words in 20 seconds print as \<^verbatim>\<open>0.1\<close>, and
  the ratio of 0.359375 to 0.3125 seconds prints as \<^verbatim>\<open>1.1\<close>; both float quotients lie
  just below the exact 0.15 and 1.15.
\<close>

lemma float_div_examples:
  "format_f 1 (float_div (real (3::nat)) 20) = lit ''0.1''"
  "format_f 1 (float_div (23 / 64) (5 / 16)) = lit ''1.1''"
  "float_div (23 / 64) (5 / 16) = 5179139571476070 / 2 ^ 52"
  by (simp_all add: number_eval lit_def)

lemma speed_diff_err:
  "\<bar>speed_diff t1 t2 - \<bar>t1 - t2\<bar>\<bar> \<le> max (\<bar>t1 - t2\<bar> / 2 ^ 53) (1 / 2 ^ 1075)"
proof -
  have "\<bar>speed_diff t1 t2 - \<bar>t1 - t2\<bar>\<bar> \<le> \<bar>float_round (t1 - t2) - (t1 - t2)\<bar>"
    unfolding speed_diff_def float_sub_def by linarith
  also have "\<dots> \<le> max (\<bar>t1 - t2\<bar> / 2 ^ 53) (1 / 2 ^ 1075)" by (rule float_round_err)
  finally show ?thesis .
qed

lemma digits_all_digit: "list_all is_digit (digits k)"
proof (induction k rule: digits.induct)
  case (1 n)
  show ?case
  proof (cases "n < 10")
    case True
    then show ?thesis by (simp add: digits.simps[of n] is_digit_def)
  next
    case False
    have "n mod 10 < 10" by simp
    then have "is_digit (48 + n mod 10)" unfolding is_digit_def by linarith
    with False "1.IH" show ?thesis by (simp add: digits.simps[of n])
  qed
qed

lemma digits_nonempty: "digits k \<noteq> []"
  by (simp add: digits.simps[of k])

lemma digits_length: "0 < n \<Longrightarrow> k < 10 ^ n \<Longrightarrow> length (digits k) \<le> n"
proof (induction k arbitrary: n rule: digits.induct)
  case (1 k)
  show ?case
  proof (cases "k < 10")
    case True
    with "1.prems" show ?thesis by (simp add: digits.simps[of k])
  next
    case False
    from "1.prems" obtain m where n: "n = Suc m" by (cases n) auto
    have m0: "0 < m"
    proof (rule ccontr)
      assume "\<not> 0 < m"
      with n "1.prems" False show False by simp
    qed
    from "1.prems"(2) n have "k < 10 * 10 ^ m" by simp
    then have "k div 10 < 10 ^ m" by (simp add: less_mult_imp_div_less mult.commute)
    from "1.IH"[OF False m0 this] have "length (digits (k div 10)) \<le> m" .
    with False n show ?thesis by (simp add: digits.simps[of k])
  qed
qed

lemma format_f_fixed_point:
  assumes "0 \<le> x" "0 < n"
  shows "fixed_point n (format_f n x)"
proof -
  define q where "q = nat (round_half_even (\<bar>x\<bar> * 10 ^ n))"
  define ip where "ip = digits (q div 10 ^ n)"
  define ds where "ds = digits (q mod 10 ^ n)"
  define fp where "fp = replicate (n - length ds) 48 @ ds"
  have f: "format_f n x = ip @ 46 # fp"
    using assms by (simp add: format_f_def Let_def q_def ip_def ds_def fp_def lit_def)
  have ipd: "\<forall>c\<in>set ip. is_digit c" "ip \<noteq> []"
    using digits_all_digit[of "q div 10 ^ n"] digits_nonempty
    by (simp_all add: ip_def list_all_iff)
  have "q mod 10 ^ n < 10 ^ n" by simp
  with assms(2) have "length ds \<le> n" unfolding ds_def by (rule digits_length)
  then have lf: "length fp = n" by (simp add: fp_def)
  have "list_all is_digit ds" unfolding ds_def by (rule digits_all_digit)
  then have fd: "list_all is_digit fp" by (auto simp: fp_def list_all_iff is_digit_def)
  have n46: "\<not> is_digit 46" by (simp add: is_digit_def)
  have tw: "takeWhile is_digit (ip @ 46 # fp) = ip"
    using ipd(1) n46 by (simp add: takeWhile_append2)
  have dw: "dropWhile is_digit (ip @ 46 # fp) = 46 # fp"
    using ipd(1) n46 by (simp add: dropWhile_append2)
  show ?thesis
    unfolding f fixed_point_def tw dw using ipd(2) lf fd by simp
qed

text \<open>
  Claim C4, as amended. The summary names the model with the strictly smaller
  duration, and the second model when the two durations are equal.
\<close>

theorem faster_model_named:
  assumes "0 < t1" "0 < t2"
  shows "comparison_summary t1 t2 m1 m2 =
           [Markdown (lit ''---''),
            Success ((if t1 < t2 then m1 else m2) @ lit '' was '' @
                     format_f 1 (speed_ratio t1 t2) @ lit ''x faster ('' @
                     format_f 2 (speed_diff t1 t2) @ lit ''s difference)'')] \<and>
         (t1 < t2 \<longrightarrow> faster_model t1 t2 m1 m2 = m1) \<and>
         (t2 < t1 \<longrightarrow> faster_model t1 t2 m1 m2 = m2) \<and>
         (t1 = t2 \<longrightarrow> faster_model t1 t2 m1 m2 = m2)"
  using assms by (simp add: comparison_summary_def faster_model_def)

theorem faster_model_named_witness:
  "comparison_summary 1 1 (lit ''llama-3.1-8b-instant'') (lit ''gemma2-9b-it'') =
     [Markdown (lit ''---''), Success (lit ''gemma2-9b-it was 1.0x faster (0.00s difference)'')] \<and>
   faster_model (1 / 2) 1 (lit ''llama-3.1-8b-instant'') (lit ''gemma2-9b-it'') =
     lit ''llama-3.1-8b-instant''"
proof -
  have a: "format_f 1 (speed_ratio 1 1) = lit ''1.0''" by (simp add: number_eval lit_def)
  have b: "format_f 2 (speed_diff 1 1) = lit ''0.00''" by (simp add: number_eval lit_def)
  from faster_model_named[of 1 1 "lit ''llama-3.1-8b-instant''" "lit ''gemma2-9b-it''"] a b
  have 1: "comparison_summary 1 1 (lit ''llama-3.1-8b-instant'') (lit ''gemma2-9b-it'') =
     [Markdown (lit ''---''), Success (lit ''gemma2-9b-it was 1.0x faster (0.00s difference)'')]"
    by (simp add: lit_def)
  from faster_model_named[of "1 / 2" 1 "lit ''llama-3.1-8b-instant''" "lit ''gemma2-9b-it''"]
  have 2: "faster_model (1 / 2) 1 (lit ''llama-3.1-8b-instant'') (lit ''gemma2-9b-it'') =
     lit ''llama-3.1-8b-instant''" by simp
  from 1 2 show ?thesis by blast
qed

text \<open>
  Claim C4 as stated fails: with equal durations the summary names the second model.
\<close>

theorem faster_model_named_counterexample:
  "faster_model 1 1 (lit ''llama-3.1-8b-instant'') (lit ''gemma2-9b-it'') = lit ''gemma2-9b-it'' \<and>
   faster_model 1 1 (lit ''llama-3.1-8b-instant'') (lit ''gemma2-9b-it'') \<noteq> lit ''llama-3.1-8b-instant'' \<and>
   comparison_summary 1 1 (lit ''llama-3.1-8b-instant'') (lit ''gemma2-9b-it'') =
     [Markdown (lit ''---''), Success (lit ''gemma2-9b-it was 1.0x faster (0.00s difference)'')]"
  by (simp add: comparison_summary_def faster_model_def number_eval lit_def)

text \<open>
  Claim C5. After a submission with a non-blank prompt, the summary is on the page if
  and only if both returned durations are greater than zero; then the ratio it reports
  is the larger duration divided by the smaller one, as the program divides two floats
  (the quotient rounded to the nearest float, within one part in \<^verbatim>\<open>2^53\<close> of the exact
  one), which is at least 1, and the difference it reports is the absolute value of
  the float difference of the two.
\<close>

theorem comparison_summary_rendered:
  assumes "strip (user_prompt c) \<noteq> []"
    and "r1 = call_groq e (user_prompt c) (model_1 c) (temperature c) (max_tokens c) w"
    and "r2 = call_groq e (user_prompt c) (model_2 c) (temperature c) (max_tokens c) (snd r1)"
    and "T1 = snd (fst r1)" and "T2 = snd (fst r2)"
  shows "((\<exists>line. Success line \<in> set (fst (run_prompt e c w))) \<longleftrightarrow> 0 < T1 \<and> 0 < T2) \<and>
         drop 2 (fst (run_prompt e c w)) = comparison_summary T1 T2 (model_1 c) (model_2 c) \<and>
         (0 < T1 \<and> 0 < T2 \<longrightarrow>
            comparison_summary T1 T2 (model_1 c) (model_2 c) =
              [Markdown (lit ''---''),
               Success (faster_model T1 T2 (model_1 c) (model_2 c) @ lit '' was '' @
                        format_f 1 (float_div (max T1 T2) (min T1 T2)) @ lit ''x faster ('' @
                        format_f 2 \<bar>float_sub T1 T2\<bar> @ lit ''s difference)'')] \<and>
            1 \<le> float_div (max T1 T2) (min T1 T2) \<and>
            \<bar>float_div (max T1 T2) (min T1 T2) - max T1 T2 / min T1 T2\<bar> \<le>
              max T1 T2 / min T1 T2 / 2 ^ 53 \<and>
            \<bar>\<bar>float_sub T1 T2\<bar> - \<bar>T1 - T2\<bar>\<bar> \<le> max (\<bar>T1 - T2\<bar> / 2 ^ 53) (1 / 2 ^ 1075))"
proof -
  have page: "fst (run_prompt e c w) =
      [Spinner (lit ''Running prompt on '' @ model_1 c @ lit '' and '' @ model_2 c @ lit ''...''),
       Columns (column e (model_1 c) (temperature c) (max_tokens c) (fst (fst r1)) T1)
               (column e (model_2 c) (temperature c) (max_tokens c) (fst (fst r2)) T2)] @
      comparison_summary T1 T2 (model_1 c) (model_2 c)"
    using assms by (simp add: run_prompt_nonblank Let_def)
  have iff: "(\<exists>line. Success line \<in> set (fst (run_prompt e c w))) \<longleftrightarrow> 0 < T1 \<and> 0 < T2"
    by (auto simp: page comparison_summary_def)
  have dr: "drop 2 (fst (run_prompt e c w)) = comparison_summary T1 T2 (model_1 c) (model_2 c)"
    by (simp add: page)
  have line: "comparison_summary T1 T2 (model_1 c) (model_2 c) =
              [Markdown (lit ''---''),
               Success (faster_model T1 T2 (model_1 c) (model_2 c) @ lit '' was '' @
                        format_f 1 (float_div (max T1 T2) (min T1 T2)) @ lit ''x faster ('' @
                        format_f 2 \<bar>float_sub T1 T2\<bar> @ lit ''s difference)'')]"
    if "0 < T1 \<and> 0 < T2"
    using that by (simp add: comparison_summary_def speed_ratio_def speed_diff_def)
  have r: "1 \<le> float_div (max T1 T2) (min T1 T2)"
    "\<bar>float_div (max T1 T2) (min T1 T2) - max T1 T2 / min T1 T2\<bar> \<le>
       max T1 T2 / min T1 T2 / 2 ^ 53"
    if "0 < T1 \<and> 0 < T2"
    using that speed_ratio_ge_1[of T1 T2] unfolding speed_ratio_def by blast+
  have d: "\<bar>\<bar>float_sub T1 T2\<bar> - \<bar>T1 - T2\<bar>\<bar> \<le> max (\<bar>T1 - T2\<bar> / 2 ^ 53) (1 / 2 ^ 1075)"
    using speed_diff_err[of T1 T2] unfolding speed_diff_def .
  from iff dr line r d show ?thesis by blast
qed

theorem comparison_summary_rendered_witness:
  "strip (user_prompt (default_controls (lit ''Say hi''))) \<noteq> [] \<and>
   (\<exists>line. Success line \<in> set (fst (run_prompt
      (mock_env scenario_clock (\<lambda>k. ok_response (lit ''Hello there'')))
      (default_controls (lit ''Say hi'')) start_world))) \<and>
   drop 2 (fst (run_prompt (mock_env scenario_clock (\<lambda>k. ok_response (lit ''Hello there'')))
      (default_controls (lit ''Say hi'')) start_world)) =
     [Markdown (lit ''---''),
      Success (lit ''llama-3.1-8b-instant was 2.0x faster (0.50s difference)'')] \<and>
   drop 2 (fst (run_prompt (mock_env close_clock (\<lambda>k. ok_response (lit ''Hello there'')))
      (default_controls (lit ''Say hi'')) start_world)) =
     [Markdown (lit ''---''),
      Success (lit ''llama-3.1-8b-instant was 1.1x faster (0.05s difference)'')]"
proof -
  let ?e = "mock_env scenario_clock (\<lambda>k. ok_response (lit ''Hello there''))"
  let ?e' = "mock_env close_clock (\<lambda>k. ok_response (lit ''Hello there''))"
  let ?c = "default_controls (lit ''Say hi'')"
  let ?r1 = "call_groq ?e (user_prompt ?c) (model_1 ?c) (temperature ?c) (max_tokens ?c) start_world"
  let ?r2 = "call_groq ?e (user_prompt ?c) (model_2 ?c) (temperature ?c) (max_tokens ?c) (snd ?r1)"
  let ?r1' = "call_groq ?e' (user_prompt ?c) (model_1 ?c) (temperature ?c) (max_tokens ?c) start_world"
  let ?r2' = "call_groq ?e' (user_prompt ?c) (model_2 ?c) (temperature ?c) (max_tokens ?c) (snd ?r1')"
  have nb: "strip (user_prompt ?c) \<noteq> []"
    by (simp add: default_controls_def text_eval)
  have cl: "clean_response (lit ''Hello there'') = lit ''Hello there''"
    by (simp add: text_eval)
  have t1: "snd (fst ?r1) = 1 / 2"
    using cl by (simp add: call_groq_cases first_content_well_formed bind_exn_def
        mock_env_def ok_response_def start_world_def scenario_clock_def)
  have t2: "snd (fst ?r2) = 1"
    using cl by (simp add: call_groq_cases first_content_well_formed bind_exn_def
        mock_env_def ok_response_def start_world_def scenario_clock_def)
  have t1': "snd (fst ?r1') = 5 / 16"
    using cl by (simp add: call_groq_cases first_content_well_formed bind_exn_def
        mock_env_def ok_response_def start_world_def close_clock_def)
  have t2': "snd (fst ?r2') = 23 / 64"
    using cl by (simp add: call_groq_cases first_content_well_formed bind_exn_def
        mock_env_def ok_response_def start_world_def close_clock_def)
  have a: "format_f 1 (float_div (max (1 / 2) 1) (min (1 / 2) 1)) = lit ''2.0''"
    by (simp add: number_eval lit_def)
  have b: "format_f 2 \<bar>float_sub (1 / 2) 1\<bar> = lit ''0.50''" by (simp add: number_eval lit_def)
  have a': "format_f 1 (float_div (max (5 / 16) (23 / 64)) (min (5 / 16) (23 / 64))) = lit ''1.1''"
    by (simp add: number_eval lit_def)
  have b': "format_f 2 \<bar>float_sub (5 / 16) (23 / 64)\<bar> = lit ''0.05''"
    by (simp add: number_eval lit_def)
  have m: "faster_model (1 / 2) 1 (model_1 ?c) (model_2 ?c) = lit ''llama-3.1-8b-instant''"
    by (simp add: faster_model_def default_controls_def AVAILABLE_MODELS_def)
  have m': "faster_model (5 / 16) (23 / 64) (model_1 ?c) (model_2 ?c) = lit ''llama-3.1-8b-instant''"
    by (simp add: faster_model_def default_controls_def AVAILABLE_MODELS_def)
  from comparison_summary_rendered[OF nb refl refl refl refl, of ?e start_world]
  have 1: "(\<exists>line. Success line \<in> set (fst (run_prompt ?e ?c start_world))) \<and>
     drop 2 (fst (run_prompt ?e ?c start_world)) =
       [Markdown (lit ''---''),
        Success (lit ''llama-3.1-8b-instant'' @ lit '' was '' @ lit ''2.0'' @ lit ''x faster ('' @
                 lit ''0.50'' @ lit ''s difference)'')]"
    unfolding t1 t2 a b m by simp
  from comparison_summary_rendered[OF nb refl refl refl refl, of ?e' start_world]
  have 2: "drop 2 (fst (run_prompt ?e' ?c start_world)) =
       [Markdown (lit ''---''),
        Success (lit ''llama-3.1-8b-instant'' @ lit '' was '' @ lit ''1.1'' @ lit ''x faster ('' @
                 lit ''0.05'' @ lit ''s difference)'')]"
    unfolding t1' t2' a' b' m' by simp
  from nb 1 2 show ?thesis by (simp add: lit_def)
qed

text \<open>
  Claim C6. The top-p and frequency-penalty controls change nothing of a run: the page
  and the requests sent are the same whatever their values, and the JSON bodies sent
  are built from the prompt, the model, the temperature and the token budget alone.
\<close>

theorem payload_ignores_top_p:
  "run_prompt e (c\<lparr>top_p := p, frequency_penalty := f\<rparr>) w = run_prompt e c w \<and>
   (strip (user_prompt c) \<noteq> [] \<longrightarrow>
      map body (sent (snd (run_prompt e (c\<lparr>top_p := p, frequency_penalty := f\<rparr>) w))) =
        map body (sent w) @
          [payload (user_prompt c) (model_1 c) (temperature c) (max_tokens c),
           payload (user_prompt c) (model_2 c) (temperature c) (max_tokens c)])"
proof -
  have mt: "max_tokens (c\<lparr>top_p := p, frequency_penalty := f\<rparr>) = max_tokens c"
    by (simp add: max_tokens_def Let_def)
  have eq: "run_prompt e (c\<lparr>top_p := p, frequency_penalty := f\<rparr>) w = run_prompt e c w"
    by (simp add: run_prompt_def mt)
  have "strip (user_prompt c) \<noteq> [] \<longrightarrow>
      map body (sent (snd (run_prompt e c w))) =
        map body (sent w) @
          [payload (user_prompt c) (model_1 c) (temperature c) (max_tokens c),
           payload (user_prompt c) (model_2 c) (temperature c) (max_tokens c)]"
    by (simp add: run_prompt_nonblank Let_def call_groq_sent groq_request_def)
  with eq show ?thesis by simp
qed

theorem payload_ignores_top_p_witness:
  "strip (user_prompt (default_controls (lit ''Say hi''))) \<noteq> [] \<and>
   map body (sent (snd (run_prompt (mock_env scenario_clock (\<lambda>k. ok_response (lit ''Hello there'')))
     ((default_controls (lit ''Say hi''))\<lparr>top_p := 1 / 10, frequency_penalty := 2\<rparr>) start_world))) =
     [payload (lit ''Say hi'') (lit ''llama-3.1-8b-instant'') (7 / 10) 400,
      payload (lit ''Say hi'') (lit ''gemma2-9b-it'') (7 / 10) 400]"
proof -
  have nb: "strip (user_prompt (default_controls (lit ''Say hi''))) \<noteq> []"
    by (simp add: default_controls_def text_eval)
  from payload_ignores_top_p[where e = "mock_env scenario_clock (\<lambda>k. ok_response (lit ''Hello there''))"
      and c = "default_controls (lit ''Say hi'')" and p = "1 / 10" and f = 2 and w = start_world] nb
  have "map body (sent (snd (run_prompt (mock_env scenario_clock (\<lambda>k. ok_response (lit ''Hello there'')))
     ((default_controls (lit ''Say hi''))\<lparr>top_p := 1 / 10, frequency_penalty := 2\<rparr>) start_world))) =
     map body (sent start_world) @
     [payload (user_prompt (default_controls (lit ''Say hi''))) (model_1 (default_controls (lit ''Say hi'')))
        (temperature (default_controls (lit ''Say hi''))) (max_tokens (default_controls (lit ''Say hi''))),
      payload (user_prompt (default_controls (lit ''Say hi''))) (model_2 (default_controls (lit ''Say hi'')))
        (temperature (default_controls (lit ''Say hi''))) (max_tokens (default_controls (lit ''Say hi'')))]"
    by blast
  then show ?thesis
    using nb by (simp add: default_controls_def start_world_def AVAILABLE_MODELS_def max_tokens_def)
qed

text \<open>
  Claim C7, as amended. The summary line prints the ratio with one decimal place and
  the difference with two: for the durations 0.50 and 1.00 it reads
  \<^verbatim>\<open><model_1> was 2.0x faster (0.50s difference)\<close>.
\<close>

theorem comparison_summary_format:
  assumes "0 < t1" "0 < t2"
  shows "comparison_summary t1 t2 m1 m2 =
           [Markdown (lit ''---''),
            Success (faster_model t1 t2 m1 m2 @ lit '' was '' @
                     format_f 1 (speed_ratio t1 t2) @ lit ''x faster ('' @
                     format_f 2 (speed_diff t1 t2) @ lit ''s difference)'')] \<and>
         fixed_point 1 (format_f 1 (speed_ratio t1 t2)) \<and>
         fixed_point 2 (format_f 2 (speed_diff t1 t2))"
proof -
  have "1 \<le> speed_ratio t1 t2" using assms by (rule speed_ratio_ge_1)
  then have "0 \<le> speed_ratio t1 t2" by simp
  then have "fixed_point 1 (format_f 1 (speed_ratio t1 t2))"
    by (rule format_f_fixed_point) simp
  moreover have "fixed_point 2 (format_f 2 (speed_diff t1 t2))"
    by (rule format_f_fixed_point) (simp_all add: speed_diff_def)
  ultimately show ?thesis
    using assms by (simp add: comparison_summary_def)
qed

theorem comparison_summary_format_witness:
  "comparison_summary (1 / 2) 1 (lit ''llama-3.1-8b-instant'') (lit ''gemma2-9b-it'') =
     [Markdown (lit ''---''),
      Success (lit ''llama-3.1-8b-instant was 2.0x faster (0.50s difference)'')] \<and>
   fixed_point 1 (lit ''2.0'') \<and> fixed_point 2 (lit ''0.50'')"
proof -
  have a: "format_f 1 (speed_ratio (1 / 2) 1) = lit ''2.0''" by (simp add: number_eval lit_def)
  have b: "format_f 2 (speed_diff (1 / 2) 1) = lit ''0.50''" by (simp add: number_eval lit_def)
  have m: "faster_model (1 / 2) 1 (lit ''llama-3.1-8b-instant'') (lit ''gemma2-9b-it'') =
      lit ''llama-3.1-8b-instant''"
    by (simp add: faster_model_def)
  have p: "(0::real) < 1 / 2" "(0::real) < 1" by simp_all
  from comparison_summary_format[OF p, of "lit ''llama-3.1-8b-instant''" "lit ''gemma2-9b-it''"]
  have "comparison_summary (1 / 2) 1 (lit ''llama-3.1-8b-instant'') (lit ''gemma2-9b-it'') =
     [Markdown (lit ''---''),
      Success (lit ''llama-3.1-8b-instant'' @ lit '' was '' @ lit ''2.0'' @ lit ''x faster ('' @
               lit ''0.50'' @ lit ''s difference)'')] \<and>
   fixed_point 1 (lit ''2.0'') \<and> fixed_point 2 (lit ''0.50'')"
    unfolding a b m by simp
  then show ?thesis by (simp add: lit_def)
qed

text \<open>
  Claim C7 as stated fails: the ratio is printed as \<^verbatim>\<open>2.0\<close>, which has one decimal
  place; with two places it would read \<^verbatim>\<open>2.00\<close>.
\<close>

theorem comparison_summary_format_counterexample:
  "comparison_summary (1 / 2) 1 (lit ''llama-3.1-8b-instant'') (lit ''gemma2-9b-it'') =
     [Markdown (lit ''---''),
      Success (lit ''llama-3.1-8b-instant was 2.0x faster (0.50s difference)'')] \<and>
   \<not> fixed_point 2 (lit ''2.0'') \<and>
   format_f 2 (speed_ratio (1 / 2) 1) = lit ''2.00'' \<and>
   comparison_summary (1 / 2) 1 (lit ''llama-3.1-8b-instant'') (lit ''gemma2-9b-it'') \<noteq>
     [Markdown (lit ''---''),
      Success (lit ''llama-3.1-8b-instant'' @ lit '' was '' @
               format_f 2 (speed_ratio (1 / 2) 1) @ lit ''x faster ('' @
               format_f 2 (speed_diff (1 / 2) 1) @ lit ''s difference)'')]"
  by (simp add: comparison_summary_def faster_model_def number_eval lit_def fixed_point_def
      is_digit_def)

text \<open>
  Claim C8. When the prompt is empty or holds whitespace only, the handler shows the
  warning and nothing else (no columns), and the world is unchanged: no request is
  sent and the clock is not read.
\<close>

theorem blank_prompt_warning:
  "list_all isspace (user_prompt c) \<Longrightarrow>
     run_prompt e c w = ([Warning (lit ''Please enter a prompt first.'')], w)"
  by (simp add: run_prompt_def strip_empty_iff)

theorem blank_prompt_warning_witness:
  "list_all isspace (user_prompt (default_controls (lit ''  '' @ [10, 9]))) \<and>
   run_prompt (mock_env scenario_clock (\<lambda>k. ok_response (lit ''Hello there'')))
     (default_controls (lit ''  '' @ [10, 9])) start_world =
     ([Warning (lit ''Please enter a prompt first.'')], start_world)"
proof -
  have b: "list_all isspace (user_prompt (default_controls (lit ''  '' @ [10, 9])))"
    by (simp add: default_controls_def isspace_def lit_def)
  from blank_prompt_warning[OF b] b show ?thesis by blast
qed

text \<open>
  Claim C10. A column whose result text is empty or begins with \<^verbatim>\<open>Error\<close> shows the
  model, the parameters and the text, and no caption (no response time, word count or
  speed), whatever the time is. This holds as well for a call that succeeded with
  status 200 and whose sanitized content is empty or begins with \<^verbatim>\<open>Error\<close>: its column
  is the one a failed call with the same text gets.
\<close>

theorem metrics_suppressed:
  "(result_text = [] \<or> startswith result_text (lit ''Error'') \<longrightarrow>
      column e m t n result_text time =
        [Subheader m,
         Info (lit ''Temperature: '' @ float_str e t @ lit '' | Max Tokens: '' @ str_int n),
         Write result_text]) \<and>
   (post e (length (sent w)) (groq_request e prompt m t n) = Responds resp \<and>
    status_code resp = 200 \<and> resp_json resp = Inr data \<and>
    first_content data = Inr (JString content) \<and>
    (clean_response content = [] \<or> startswith (clean_response content) (lit ''Error'')) \<longrightarrow>
      fst (fst (call_groq e prompt m t n w)) = clean_response content \<and>
      column e m t n (fst (fst (call_groq e prompt m t n w)))
          (snd (fst (call_groq e prompt m t n w))) =
        [Subheader m,
         Info (lit ''Temperature: '' @ float_str e t @ lit '' | Max Tokens: '' @ str_int n),
         Write (clean_response content)])"
proof -
  have 1: "column e m t n result_text time =
        [Subheader m,
         Info (lit ''Temperature: '' @ float_str e t @ lit '' | Max Tokens: '' @ str_int n),
         Write result_text]"
    if "result_text = [] \<or> startswith result_text (lit ''Error'')" for result_text time
    using that by (auto simp: column_def)
  have 2: "fst (fst (call_groq e prompt m t n w)) = clean_response content"
    if "post e (length (sent w)) (groq_request e prompt m t n) = Responds resp"
      "status_code resp = 200" "resp_json resp = Inr data"
      "first_content data = Inr (JString content)"
    using that by (simp add: call_groq_cases bind_exn_def)
  show ?thesis
    using 1 2 by metis
qed

theorem metrics_suppressed_witness:
  "fst (call_groq (mock_env scenario_clock (\<lambda>k. ok_response (lit ''Error: 500 - boom'')))
         (lit ''Say hi'') (lit ''gemma2-9b-it'') (7 / 10) 400 start_world) =
     (lit ''Error: 500 - boom'', 1 / 2) \<and>
   column (mock_env scenario_clock (\<lambda>k. ok_response (lit ''Error: 500 - boom'')))
       (lit ''gemma2-9b-it'') (7 / 10) 400 (lit ''Error: 500 - boom'') (1 / 2) =
     [Subheader (lit ''gemma2-9b-it''), Info (lit ''Temperature: 0.7 | Max Tokens: 400''),
      Write (lit ''Error: 500 - boom'')] \<and>
   column (mock_env scenario_clock (\<lambda>k. ok_response (lit ''Error: 500 - boom'')))
       (lit ''gemma2-9b-it'') (7 / 10) 400 (lit ''Hello there'') (1 / 2) =
     [Subheader (lit ''gemma2-9b-it''), Info (lit ''Temperature: 0.7 | Max Tokens: 400''),
      Write (lit ''Hello there''), Caption (lit ''Response time: 0.50 seconds''),
      Caption (lit ''Word count: 2 words''), Caption (lit ''Speed: 4.0 words/second'')]"
proof -
  let ?e = "mock_env scenario_clock (\<lambda>k. ok_response (lit ''Error: 500 - boom''))"
  let ?r = "call_groq ?e (lit ''Say hi'') (lit ''gemma2-9b-it'') (7 / 10) 400 start_world"
  have cl: "clean_response (lit ''Error: 500 - boom'') = lit ''Error: 500 - boom''"
    by (simp add: text_eval)
  have sw: "startswith (lit ''Error: 500 - boom'') (lit ''Error'')"
    by (simp add: startswith_def lit_def)
  have t: "snd (fst ?r) = 1 / 2"
    using cl by (simp add: call_groq_cases first_content_well_formed bind_exn_def
        mock_env_def ok_response_def start_world_def scenario_clock_def)
  have si: "str_int 400 = lit ''400''" by (simp add: number_eval lit_def)
  have fs: "float_str ?e (7 / 10) = lit ''0.7''" by (simp add: mock_env_def)
  from metrics_suppressed[where e = ?e and w = start_world and prompt = "lit ''Say hi''"
      and m = "lit ''gemma2-9b-it''" and t = "7 / 10" and n = 400
      and resp = "\<lparr>status_code = 200, resp_text = [],
                    resp_json = Inr (well_formed_body (lit ''Error: 500 - boom''))\<rparr>"
      and data = "well_formed_body (lit ''Error: 500 - boom'')"
      and content = "lit ''Error: 500 - boom''" and result_text = "lit ''Error: 500 - boom''"
      and time = "1 / 2"]
  have 1: "fst (fst ?r) = lit ''Error: 500 - boom''"
    and 2: "column ?e (lit ''gemma2-9b-it'') (7 / 10) 400 (lit ''Error: 500 - boom'') (1 / 2) =
     [Subheader (lit ''gemma2-9b-it''),
      Info (lit ''Temperature: '' @ lit ''0.7'' @ lit '' | Max Tokens: '' @ lit ''400''),
      Write (lit ''Error: 500 - boom'')]"
    using cl sw first_content_well_formed si fs
    by (simp_all add: mock_env_def ok_response_def start_world_def)
  have 3: "column ?e (lit ''gemma2-9b-it'') (7 / 10) 400 (lit ''Hello there'') (1 / 2) =
     [Subheader (lit ''gemma2-9b-it''), Info (lit ''Temperature: 0.7 | Max Tokens: 400''),
      Write (lit ''Hello there''), Caption (lit ''Response time: 0.50 seconds''),
      Caption (lit ''Word count: 2 words''), Caption (lit ''Speed: 4.0 words/second'')]"
  proof -
    have wc: "length (split (lit ''Hello there'')) = 2"
      by (simp add: split_def isspace_def lit_def)
    have sw': "\<not> startswith (lit ''Hello there'') (lit ''Error'')"
      by (simp add: startswith_def lit_def)
    have ne: "lit ''Hello there'' \<noteq> []" by (simp add: lit_def)
    have rt: "format_f 2 (1 / 2) = lit ''0.50''" by (simp add: number_eval lit_def)
    have sp: "format_f 1 (float_div (real (2::nat)) (1 / 2)) = lit ''4.0''"
      by (simp add: number_eval lit_def)
    have s2: "str_int (int (2::nat)) = lit ''2''" by (simp add: number_eval lit_def)
    have "column ?e (lit ''gemma2-9b-it'') (7 / 10) 400 (lit ''Hello there'') (1 / 2) =
       [Subheader (lit ''gemma2-9b-it''),
        Info (lit ''Temperature: '' @ lit ''0.7'' @ lit '' | Max Tokens: '' @ lit ''400''),
        Write (lit ''Hello there''),
        Caption (lit ''Response time: '' @ lit ''0.50'' @ lit '' seconds''),
        Caption (lit ''Word count: '' @ lit ''2'' @ lit '' words''),
        Caption (lit ''Speed: '' @ lit ''4.0'' @ lit '' words/second'')]"
      unfolding column_def Let_def wc using sw' ne rt sp s2 si fs by simp
    then show ?thesis by (simp add: lit_def)
  qed
  from 1 t have "fst ?r = (lit ''Error: 500 - boom'', 1 / 2)" by (simp add: prod_eq_iff)
  with 2 3 show ?thesis by (simp add: lit_def)
qed

end
